theory Spec2Isabelle
  imports Complex_Main "HOL-Library.Word"
begin

section \<open>Values shared by the image processor and the defect detector\<close>

text \<open>
  The exceptions the modelled Python code can raise. \<open>CvError\<close> stands for
  \<^verbatim>\<open>cv2.error\<close>, raised inside an OpenCV call.
\<close>

datatype exn = ValueError | TypeError | KeyError | ZeroDivisionError | CvError

text \<open>
  A numpy image of dtype \<^verbatim>\<open>uint8\<close>: its \<^verbatim>\<open>shape\<close> tuple and its buffer in
  row-major order. Python floats are modelled as reals.
\<close>

record ndarray =
  shape :: "nat list"
  data :: "8 word list"

text \<open>Python's \<^verbatim>\<open>int(x)\<close> on a float truncates towards zero.\<close>

definition py_int :: "real \<Rightarrow> int" where
  "py_int r = (if 0 \<le> r then \<lfloor>r\<rfloor> else \<lceil>r\<rceil>)"

text \<open>
  Python values as they occur in a detection dictionary, which is not typed: a caller
  can store anything under a key.
\<close>

datatype pyval = PInt int | PFloat real | PStr string | PList "pyval list" | PNone

type_synonym pydict = "string \<rightharpoonup> pyval"

type_synonym contour = "(int \<times> int) list"

type_synonym color = "nat \<times> nat \<times> nat"

text \<open>
  The OpenCV calls of the two modules whose results are computed by the library from pixel
  data. They are parameters of the model; a call that can raise returns a sum. The
  arguments the source passes as constants (kernel sizes, thresholds, flags) are fixed in
  the field, so \<open>GaussianBlur\<close> is \<^verbatim>\<open>cv2.GaussianBlur(_, (5, 5), 0)\<close>, \<open>Canny\<close> is
  \<^verbatim>\<open>cv2.Canny(_, 50, 150)\<close>, \<open>dilate\<close> and \<open>morphologyEx_CLOSE\<close> take the iteration count
  and use the 3x3 kernel, \<open>findContours\<close> is called with \<^verbatim>\<open>RETR_EXTERNAL\<close> and
  \<^verbatim>\<open>CHAIN_APPROX_SIMPLE\<close>, \<open>arcLength\<close> with \<^verbatim>\<open>closed=True\<close>. \<open>INTER_AREA\<close> is the
  buffer \<^verbatim>\<open>cv2.resize\<close> computes for a given width and height. \<open>dnn_forward\<close> is the blob
  construction and the forward pass through the output layers: one list of rows per
  output layer.
\<close>

record 'net cv2 =
  INTER_AREA :: "ndarray \<Rightarrow> nat \<Rightarrow> nat \<Rightarrow> 8 word list"
  GaussianBlur :: "ndarray \<Rightarrow> exn + ndarray"
  medianBlur :: "ndarray \<Rightarrow> exn + ndarray"
  bilateralFilter :: "ndarray \<Rightarrow> exn + ndarray"
  cvtColor_RGB2GRAY :: "ndarray \<Rightarrow> exn + ndarray"
  cvtColor_RGB2BGR :: "ndarray \<Rightarrow> exn + ndarray"
  Canny :: "ndarray \<Rightarrow> exn + ndarray"
  dilate :: "ndarray \<Rightarrow> nat \<Rightarrow> exn + ndarray"
  morphologyEx_CLOSE :: "ndarray \<Rightarrow> nat \<Rightarrow> exn + ndarray"
  adaptiveThreshold :: "ndarray \<Rightarrow> exn + ndarray"
  findContours :: "ndarray \<Rightarrow> exn + contour list"
  arcLength :: "contour \<Rightarrow> real"
  dnn_forward :: "'net \<Rightarrow> ndarray \<Rightarrow> exn + real list list list"
  rectangle :: "ndarray \<Rightarrow> pyval \<times> pyval \<Rightarrow> pyval \<times> pyval \<Rightarrow> color \<Rightarrow> int \<Rightarrow> exn + ndarray"
  getTextSize :: "string \<Rightarrow> int \<times> int"
  putText :: "ndarray \<Rightarrow> string \<Rightarrow> pyval \<times> pyval \<Rightarrow> exn + ndarray"

section \<open>image_processor.py\<close>

record ImageProcessor =
  target_size :: "nat \<times> nat"

definition ImageProcessor_init :: ImageProcessor where
  "ImageProcessor_init = \<lparr>target_size = (640, 640)\<rparr>"

subsection \<open>adjust_brightness\<close>

text \<open>\<^verbatim>\<open>np.clip(a, lo, hi)\<close> on one element.\<close>

definition np_clip :: "real \<Rightarrow> real \<Rightarrow> real \<Rightarrow> real" where
  "np_clip a lo hi = min (max a lo) hi"

text \<open>
  \<^verbatim>\<open>astype(np.float32)\<close> of a \<^verbatim>\<open>uint8\<close> element is exact; \<^verbatim>\<open>astype(np.uint8)\<close>
  of a float drops the fraction and keeps the low eight bits.
\<close>

definition astype_float32 :: "8 word \<Rightarrow> real" where
  "astype_float32 p = real (unat p)"

definition astype_uint8 :: "real \<Rightarrow> 8 word" where
  "astype_uint8 r = word_of_int (py_int r)"

definition adjust_brightness :: "ndarray \<Rightarrow> real \<Rightarrow> real \<Rightarrow> ndarray" where
  "adjust_brightness img alpha beta =
     img\<lparr>data := map (\<lambda>p. astype_uint8 (np_clip (alpha * astype_float32 p + beta) 0 255))
                      (data img)\<rparr>"

subsection \<open>resize\<close>

text \<open>
  \<^verbatim>\<open>cv2.resize(image, (w, h), interpolation=cv2.INTER_AREA)\<close>: OpenCV asserts that the
  source is not empty and, with no scale factors given, that the requested size has
  positive width and height; otherwise it raises \<^verbatim>\<open>cv2.error\<close>. The result has the
  requested size and the channels of the source.
\<close>

definition cv2_resize :: "'net cv2 \<Rightarrow> ndarray \<Rightarrow> int \<times> int \<Rightarrow> exn + ndarray" where
  "cv2_resize cv img dsize =
     (case dsize of (w, h) \<Rightarrow>
        if 0 \<in> set (take 2 (shape img)) \<or> w \<le> 0 \<or> h \<le> 0 then Inl CvError
        else Inr \<lparr>shape = nat h # nat w # drop 2 (shape img),
                  data = INTER_AREA cv img (nat w) (nat h)\<rparr>)"

text \<open>The rows of an image buffer, each \<open>width * channels\<close> bytes long.\<close>

definition rows_of :: "ndarray \<Rightarrow> 8 word list list" where
  "rows_of img =
     (let rowlen = prod_list (drop 1 (shape img))
      in map (\<lambda>i. take rowlen (drop (i * rowlen) (data img))) [0..<hd (shape img)])"

text \<open>
  \<^verbatim>\<open>cv2.copyMakeBorder(src, top, bottom, left, right, cv2.BORDER_CONSTANT, value=[0, 0, 0])\<close>:
  a frame of zero pixels around the source; a negative border width is refused.
\<close>

definition copyMakeBorder :: "ndarray \<Rightarrow> int \<Rightarrow> int \<Rightarrow> int \<Rightarrow> int \<Rightarrow> exn + ndarray" where
  "copyMakeBorder src b_top b_bottom b_left b_right =
     (case shape src of
        h # w # chans \<Rightarrow>
          if b_top < 0 \<or> b_bottom < 0 \<or> b_left < 0 \<or> b_right < 0 then Inl CvError
          else
            let c = prod_list chans;
                out_w = nat b_left + w + nat b_right;
                zrow = replicate (out_w * c) 0;
                body = map (\<lambda>r. replicate (nat b_left * c) 0 @ r @ replicate (nat b_right * c) 0)
                           (rows_of src)
            in Inr \<lparr>shape = (nat b_top + h + nat b_bottom) # out_w # chans,
                      data = concat (replicate (nat b_top) zrow @ body @ replicate (nat b_bottom) zrow)\<rparr>
      | _ \<Rightarrow> Inl CvError)"

text \<open>
  \<^verbatim>\<open>height, width = image.shape[:2]\<close> raises \<^verbatim>\<open>ValueError\<close> on an array of fewer than two
  dimensions; the two divisions raise \<^verbatim>\<open>ZeroDivisionError\<close> on a zero width or height.
\<close>

definition resize :: "'net cv2 \<Rightarrow> ImageProcessor \<Rightarrow> ndarray \<Rightarrow> (nat \<times> nat) option \<Rightarrow> exn + ndarray" where
  "resize cv self img target_size_arg =
     (let (target_width, target_height) =
            (case target_size_arg of None \<Rightarrow> target_size self | Some t \<Rightarrow> t)
      in case shape img of
           height # width # _ \<Rightarrow>
             if width = 0 \<or> height = 0 then Inl ZeroDivisionError
             else
               let scale = min (real target_width / real width) (real target_height / real height);
                   new_width = py_int (real width * scale);
                   new_height = py_int (real height * scale)
               in (case cv2_resize cv img (new_width, new_height) of
                     Inl e \<Rightarrow> Inl e
                   | Inr resized \<Rightarrow>
                       if new_width \<noteq> int target_width \<or> new_height \<noteq> int target_height then
                         let pad_top = (int target_height - new_height) div 2;
                             pad_bottom = int target_height - new_height - pad_top;
                             pad_left = (int target_width - new_width) div 2;
                             pad_right = int target_width - new_width - pad_left
                         in copyMakeBorder resized pad_top pad_bottom pad_left pad_right
                       else Inr resized)
         | _ \<Rightarrow> Inl ValueError)"

subsection \<open>remove_noise\<close>

definition remove_noise :: "'net cv2 \<Rightarrow> ndarray \<Rightarrow> string \<Rightarrow> exn + ndarray" where
  "remove_noise cv img method =
     (if method = ''gaussian'' then GaussianBlur cv img
      else if method = ''median'' then medianBlur cv img
      else if method = ''bilateral'' then bilateralFilter cv img
      else Inr img)"

subsection \<open>grayscale\<close>

definition grayscale :: "'net cv2 \<Rightarrow> ndarray \<Rightarrow> exn + ndarray" where
  "grayscale cv img =
     (if length (shape img) = 3 then cvtColor_RGB2GRAY cv img else Inr img)"

section \<open>defect_detector.py\<close>

text \<open>
  A detection dictionary as \<open>detect\<close> builds it: the keys \<^verbatim>\<open>'type'\<close>, \<^verbatim>\<open>'confidence'\<close>
  and \<^verbatim>\<open>'bbox'\<close>, the last one the four-element list \<^verbatim>\<open>[x1, y1, x2, y2]\<close>.
\<close>

record detection =
  type :: string
  confidence :: real
  bbox :: "int \<times> int \<times> int \<times> int"

record 'net DefectDetector =
  image_processor :: ImageProcessor
  yolo_model :: "'net option"
  yolo_net :: "'net option"
  yolo_classes :: "string list"
  use_yolo :: bool

subsection \<open>Loading the model\<close>

text \<open>
  What \<open>load_yolo_model\<close> asks of the outside world: \<^verbatim>\<open>os.path.exists\<close>,
  \<^verbatim>\<open>cv2.dnn.readNet\<close>, the two \<^verbatim>\<open>setPreferable...\<close> calls on the loaded network, and
  reading the lines of a text file.
\<close>

record 'net files =
  path_exists :: "string \<Rightarrow> bool"
  readNet :: "string \<Rightarrow> string \<Rightarrow> exn + 'net"
  setPreferable :: "'net \<Rightarrow> exn + unit"
  readlines :: "string \<Rightarrow> exn + string list"

definition config_path :: string where
  "config_path = ''models/yolov4-tiny.cfg''"

definition weights_path :: string where
  "weights_path = ''models/yolov4-tiny.weights''"

definition classes_path :: string where
  "classes_path = ''models/coco.names''"

definition is_space :: "char \<Rightarrow> bool" where
  "is_space c = (c \<in> {CHR '' '', CHR 0x09, CHR 0x0A, CHR 0x0B, CHR 0x0C, CHR 0x0D})"

definition strip :: "string \<Rightarrow> string" where
  "strip s = rev (dropWhile is_space (rev (dropWhile is_space s)))"

text \<open>
  The \<^verbatim>\<open>try\<close> block of \<open>_load_yolo_model\<close>: every exception ends in
  \<^verbatim>\<open>self.use_yolo = False\<close>, with the attributes assigned so far left as they are.
\<close>

definition load_yolo_model :: "'net files \<Rightarrow> 'net DefectDetector \<Rightarrow> 'net DefectDetector" where
  "load_yolo_model fs self =
     (if path_exists fs config_path \<and> path_exists fs weights_path then
        (case readNet fs weights_path config_path of
           Inl e \<Rightarrow> self\<lparr>use_yolo := False\<rparr>
         | Inr net \<Rightarrow>
             (case setPreferable fs net of
                Inl e \<Rightarrow> self\<lparr>yolo_net := Some net, use_yolo := False\<rparr>
              | Inr u \<Rightarrow>
                  if path_exists fs classes_path then
                    (case readlines fs classes_path of
                       Inl e \<Rightarrow> self\<lparr>yolo_net := Some net, use_yolo := False\<rparr>
                     | Inr ls \<Rightarrow>
                         self\<lparr>yolo_net := Some net, yolo_classes := map strip ls,
                              use_yolo := True\<rparr>)
                  else self\<lparr>yolo_net := Some net, use_yolo := True\<rparr>))
      else self\<lparr>use_yolo := False\<rparr>)"

definition DefectDetector_init :: "'net files \<Rightarrow> 'net DefectDetector" where
  "DefectDetector_init fs =
     load_yolo_model fs
       \<lparr>image_processor = ImageProcessor_init, yolo_model = None, yolo_net = None,
        yolo_classes = [], use_yolo = False\<rparr>"

subsection \<open>Contour measurements\<close>

text \<open>
  \<^verbatim>\<open>cv2.contourArea\<close> and \<^verbatim>\<open>cv2.boundingRect\<close> on a contour of integer points, as
  OpenCV computes them: half the absolute value of the shoelace sum over the closed
  polygon, and the smallest upright rectangle that contains every point, its width and
  height counted in pixels. Both return zeros on an empty contour.
\<close>

fun shoelace :: "int \<times> int \<Rightarrow> contour \<Rightarrow> int" where
  "shoelace prev [] = 0"
| "shoelace prev (p # ps) = (fst prev * snd p - snd prev * fst p) + shoelace p ps"

definition contourArea :: "contour \<Rightarrow> real" where
  "contourArea c = (if c = [] then 0 else \<bar>real_of_int (shoelace (last c) c)\<bar> / 2)"

definition boundingRect :: "contour \<Rightarrow> int \<times> int \<times> int \<times> int" where
  "boundingRect c =
     (case c of
        [] \<Rightarrow> (0, 0, 0, 0)
      | p # ps \<Rightarrow>
          let xmin = fold min (map fst ps) (fst p); xmax = fold max (map fst ps) (fst p);
              ymin = fold min (map snd ps) (snd p); ymax = fold max (map snd ps) (snd p)
          in (xmin, ymin, xmax - xmin + 1, ymax - ymin + 1))"

subsection \<open>The crack path\<close>

text \<open>The loop over the contours; \<open>detections\<close> is the list built so far.\<close>

fun crack_loop :: "contour list \<Rightarrow> detection list \<Rightarrow> detection list" where
  "crack_loop [] detections = detections"
| "crack_loop (contour # rest) detections =
     (let area = contourArea contour
      in if area > 100 then
           (case boundingRect contour of
              (x, y, w, h) \<Rightarrow>
                let aspect_ratio = real_of_int (max w h) / real_of_int (max (min w h) 1)
                in if aspect_ratio > 3 then
                     crack_loop rest
                       (detections @
                          [\<lparr>type = ''Crack'', confidence = min 0.9 (area / 1000),
                            bbox = (x, y, x + w, y + h)\<rparr>])
                   else crack_loop rest detections)
         else crack_loop rest detections)"

text \<open>The OpenCV calls before the loop; the first one that raises ends the \<^verbatim>\<open>try\<close> block.\<close>

definition crack_contours :: "'net cv2 \<Rightarrow> ndarray \<Rightarrow> exn + contour list" where
  "crack_contours cv gray_image =
     (case GaussianBlur cv gray_image of
        Inl e \<Rightarrow> Inl e
      | Inr blurred \<Rightarrow>
          (case Canny cv blurred of
             Inl e \<Rightarrow> Inl e
           | Inr edges \<Rightarrow>
               (case dilate cv edges 2 of
                  Inl e \<Rightarrow> Inl e
                | Inr dilated \<Rightarrow>
                    (case morphologyEx_CLOSE cv dilated 3 of
                       Inl e \<Rightarrow> Inl e
                     | Inr closed_img \<Rightarrow> findContours cv closed_img))))"

definition detect_cracks :: "'net cv2 \<Rightarrow> ndarray \<Rightarrow> detection list" where
  "detect_cracks cv gray_image =
     (case crack_contours cv gray_image of
        Inl e \<Rightarrow> []
      | Inr contours \<Rightarrow> crack_loop contours [])"

subsection \<open>The irregularity path\<close>

text \<open>Python's \<^verbatim>\<open>/\<close> on floats raises on a zero divisor.\<close>

definition py_truediv :: "real \<Rightarrow> real \<Rightarrow> exn + real" where
  "py_truediv a b = (if b = 0 then Inl ZeroDivisionError else Inr (a / b))"

text \<open>\<^verbatim>\<open>np.pi\<close> is the double nearest to \<open>\<pi>\<close>.\<close>

definition np_pi :: real where
  "np_pi = 884279719003555 / 2 ^ 48"

definition circularity :: "real \<Rightarrow> real \<Rightarrow> exn + real" where
  "circularity area perimeter =
     (if perimeter > 0 then py_truediv (4 * np_pi * area) (perimeter ^ 2) else Inr 0)"

text \<open>
  An exception inside the loop leaves through the \<^verbatim>\<open>except\<close> clause, and the function
  returns the detections appended so far.
\<close>

fun irregularity_loop :: "'net cv2 \<Rightarrow> contour list \<Rightarrow> detection list \<Rightarrow> detection list" where
  "irregularity_loop cv [] detections = detections"
| "irregularity_loop cv (contour # rest) detections =
     (let area = contourArea contour
      in if 200 < area \<and> area < 50000 then
           (case boundingRect contour of
              (x, y, w, h) \<Rightarrow>
                (case circularity area (arcLength cv contour) of
                   Inl e \<Rightarrow> detections
                 | Inr circ \<Rightarrow>
                     if circ < 0.5 then
                       irregularity_loop cv rest
                         (detections @
                            [\<lparr>type = ''Surface Irregularity'', confidence = min 0.8 (area / 5000),
                              bbox = (x, y, x + w, y + h)\<rparr>])
                     else irregularity_loop cv rest detections))
         else irregularity_loop cv rest detections)"

definition irregularity_contours :: "'net cv2 \<Rightarrow> ndarray \<Rightarrow> exn + contour list" where
  "irregularity_contours cv gray_image =
     (case adaptiveThreshold cv gray_image of
        Inl e \<Rightarrow> Inl e
      | Inr adaptive_thresh \<Rightarrow> findContours cv adaptive_thresh)"

definition detect_surface_irregularities :: "'net cv2 \<Rightarrow> ndarray \<Rightarrow> detection list" where
  "detect_surface_irregularities cv gray_image =
     (case irregularity_contours cv gray_image of
        Inl e \<Rightarrow> []
      | Inr contours \<Rightarrow> irregularity_loop cv contours [])"

subsection \<open>The classical paths together\<close>

text \<open>\<open>grayscale\<close> is called outside any \<^verbatim>\<open>try\<close>: an exception there leaves \<open>detect\<close>.\<close>

definition detect_with_classical :: "'net cv2 \<Rightarrow> ndarray \<Rightarrow> exn + detection list" where
  "detect_with_classical cv img =
     (case grayscale cv img of
        Inl e \<Rightarrow> Inl e
      | Inr gray \<Rightarrow> Inr ([] @ detect_cracks cv gray @ detect_surface_irregularities cv gray))"

subsection \<open>The model path\<close>

text \<open>The list \<^verbatim>\<open>[x, y, x + w, y + h]\<close> of a box \<^verbatim>\<open>[x, y, w, h]\<close>.\<close>

definition corners :: "int \<times> int \<times> int \<times> int \<Rightarrow> int \<times> int \<times> int \<times> int" where
  "corners r = (case r of (x, y, w, h) \<Rightarrow> (x, y, x + w, y + h))"

text \<open>\<^verbatim>\<open>np.argmax\<close>: the first position of the largest element; it raises on an empty array.\<close>

fun argmax_from :: "real list \<Rightarrow> nat \<Rightarrow> nat \<Rightarrow> real \<Rightarrow> nat" where
  "argmax_from [] i best v = best"
| "argmax_from (x # xs) i best v =
     (if x > v then argmax_from xs (Suc i) i x else argmax_from xs (Suc i) best v)"

definition np_argmax :: "real list \<Rightarrow> exn + nat" where
  "np_argmax scores = (case scores of [] \<Rightarrow> Inl ValueError | x # xs \<Rightarrow> Inr (argmax_from xs 1 0 x))"

text \<open>
  The loop over the rows of the network output, with the three lists it appends to.
  \<open>width\<close> and \<open>height\<close> are those of the image.
\<close>

fun collect_boxes ::
  "nat \<Rightarrow> nat \<Rightarrow> real list list \<Rightarrow>
   (int \<times> int \<times> int \<times> int) list \<times> real list \<times> nat list \<Rightarrow>
   exn + (int \<times> int \<times> int \<times> int) list \<times> real list \<times> nat list" where
  "collect_boxes width height [] acc = Inr acc"
| "collect_boxes width height (detection # rest) (boxes, confidences, class_ids) =
     (let scores = drop 5 detection
      in case np_argmax scores of
           Inl e \<Rightarrow> Inl e
         | Inr class_id \<Rightarrow>
             let confidence = scores ! class_id
             in if confidence > 0.5 then
                  let center_x = py_int (detection ! 0 * real width);
                      center_y = py_int (detection ! 1 * real height);
                      w = py_int (detection ! 2 * real width);
                      h = py_int (detection ! 3 * real height);
                      x = py_int (real_of_int center_x - real_of_int w / 2);
                      y = py_int (real_of_int center_y - real_of_int h / 2)
                  in collect_boxes width height rest
                       (boxes @ [(x, y, w, h)], confidences @ [confidence], class_ids @ [class_id])
                else collect_boxes width height rest (boxes, confidences, class_ids))"

text \<open>
  Modelled from the spec: \<^verbatim>\<open>cv2.dnn.NMSBoxes\<close> is OpenCV code and not part of the
  repository. The area of a box given by its corners, for the spec's intersection over
  union.
\<close>

definition box_area :: "int \<times> int \<times> int \<times> int \<Rightarrow> int" where
  "box_area b = (case b of (x1, y1, x2, y2) \<Rightarrow> max 0 (x2 - x1) * max 0 (y2 - y1))"

text \<open>Modelled from the spec: the intersection of two boxes, for \<open>iou\<close>.\<close>

definition intersection :: "int \<times> int \<times> int \<times> int \<Rightarrow> int \<times> int \<times> int \<times> int \<Rightarrow> int \<times> int \<times> int \<times> int" where
  "intersection a b =
     (case a of (ax1, ay1, ax2, ay2) \<Rightarrow>
        case b of (bx1, by1, bx2, by2) \<Rightarrow> (max ax1 bx1, max ay1 by1, min ax2 bx2, min ay2 by2))"

text \<open>
  Modelled from the spec: intersection over union, the area of the intersection divided by
  the area of the union (0 for two boxes without area).
\<close>

definition iou :: "int \<times> int \<times> int \<times> int \<Rightarrow> int \<times> int \<times> int \<times> int \<Rightarrow> real" where
  "iou a b =
     (let inter = box_area (intersection a b);
          union = box_area a + box_area b - inter
      in if union = 0 then 0 else real_of_int inter / real_of_int union)"

text \<open>
  Modelled from the spec: the greedy pass of non-maximum suppression over the sorted
  positions. A box is kept and every remaining box whose overlap with it exceeds the
  threshold is discarded, whatever its class.
\<close>

function nms_greedy :: "real \<Rightarrow> (int \<times> int \<times> int \<times> int) list \<Rightarrow> nat list \<Rightarrow> nat list" where
  "nms_greedy thr boxes [] = []"
| "nms_greedy thr boxes (i # rest) =
     i # nms_greedy thr boxes
           (filter (\<lambda>j. \<not> iou (corners (boxes ! i)) (corners (boxes ! j)) > thr) rest)"
  by pat_completeness auto
termination
  by (relation "measure (\<lambda>(thr, boxes, idx). length idx)") (auto simp: less_Suc_eq_le)

text \<open>
  Modelled from the spec: \<^verbatim>\<open>cv2.dnn.NMSBoxes(boxes, scores, score_threshold, nms_threshold)\<close>.
  The boxes whose score exceeds the score threshold are sorted by confidence, highest
  first, an earlier box winning a tie, and handed to the greedy pass. The result is the
  list of kept positions.
\<close>

definition NMSBoxes :: "(int \<times> int \<times> int \<times> int) list \<Rightarrow> real list \<Rightarrow> real \<Rightarrow> real \<Rightarrow> nat list" where
  "NMSBoxes boxes scores score_threshold nms_threshold =
     nms_greedy nms_threshold boxes
       (sort_key (\<lambda>i. - (scores ! i))
          (filter (\<lambda>i. scores ! i > score_threshold) [0..<length boxes]))"

text \<open>
  \<open>_detect_with_yolo\<close>. Every exception inside the \<^verbatim>\<open>try\<close> block is raised before the
  first detection is appended, so the \<^verbatim>\<open>except\<close> clause returns the empty list.
\<close>

definition detect_with_yolo :: "'net cv2 \<Rightarrow> 'net DefectDetector \<Rightarrow> ndarray \<Rightarrow> detection list" where
  "detect_with_yolo cv self img =
     (case yolo_net self of
        None \<Rightarrow> []
      | Some net \<Rightarrow>
          (case cvtColor_RGB2BGR cv img of
             Inl e \<Rightarrow> []
           | Inr image_bgr \<Rightarrow>
               (case shape image_bgr of
                  height # width # _ \<Rightarrow>
                    (case dnn_forward cv net image_bgr of
                       Inl e \<Rightarrow> []
                     | Inr outputs \<Rightarrow>
                         (case collect_boxes width height (concat outputs) ([], [], []) of
                            Inl e \<Rightarrow> []
                          | Inr (boxes, confidences, class_ids) \<Rightarrow>
                              let indices = NMSBoxes boxes confidences 0.5 0.4
                              in map (\<lambda>i.
                                    \<lparr>type = (if class_ids ! i < length (yolo_classes self)
                                             then yolo_classes self ! (class_ids ! i)
                                             else ''Unknown''),
                                     confidence = confidences ! i,
                                     bbox = corners (boxes ! i)\<rparr>) indices))
                | _ \<Rightarrow> [])))"

subsection \<open>detect\<close>

definition detect :: "'net cv2 \<Rightarrow> 'net DefectDetector \<Rightarrow> ndarray \<Rightarrow> exn + detection list" where
  "detect cv self img =
     (let detections = [] @ (if use_yolo self then detect_with_yolo cv self img else [])
      in case detect_with_classical cv img of
           Inl e \<Rightarrow> Inl e
         | Inr classical_detections \<Rightarrow> Inr (detections @ classical_detections))"

subsection \<open>draw_detections\<close>

text \<open>
  \<open>draw_detections\<close> receives dictionaries, and nothing in it checks what they hold.
  \<open>to_dict\<close> is the dictionary of a detection as \<open>detect\<close> builds it.
\<close>

definition to_dict :: "detection \<Rightarrow> pydict" where
  "to_dict d =
     (case bbox d of (x1, y1, x2, y2) \<Rightarrow>
        [''type'' \<mapsto> PStr (type d), ''confidence'' \<mapsto> PFloat (confidence d),
         ''bbox'' \<mapsto> PList [PInt x1, PInt y1, PInt x2, PInt y2]])"

text \<open>
  The two conversions to text inside the label's f-string: \<^verbatim>\<open>str\<close> of any value, and a
  float printed with two decimals.
\<close>

record pyformat =
  str_of :: "pyval \<Rightarrow> string"
  fixed2 :: "real \<Rightarrow> string"

text \<open>\<^verbatim>\<open>det[key]\<close> raises \<^verbatim>\<open>KeyError\<close> on a missing key.\<close>

definition getitem :: "pydict \<Rightarrow> string \<Rightarrow> exn + pyval" where
  "getitem det k = (case det k of None \<Rightarrow> Inl KeyError | Some v \<Rightarrow> Inr v)"

text \<open>
  \<^verbatim>\<open>color_map.get(defect_type, (255, 255, 255))\<close>: a list is not hashable and raises
  \<^verbatim>\<open>TypeError\<close>; any other value that is not a key of the map gets the default.
\<close>

definition color_map :: "string \<rightharpoonup> color" where
  "color_map =
     [''Crack'' \<mapsto> (255, 0, 0), ''Surface Irregularity'' \<mapsto> (0, 255, 0),
      ''Dent'' \<mapsto> (0, 0, 255), ''Leak'' \<mapsto> (255, 255, 0)]"

definition color_of :: "pyval \<Rightarrow> exn + color" where
  "color_of defect_type =
     (case defect_type of
        PStr s \<Rightarrow> Inr (case color_map s of None \<Rightarrow> (255, 255, 255) | Some c \<Rightarrow> c)
      | PList xs \<Rightarrow> Inl TypeError
      | _ \<Rightarrow> Inr (255, 255, 255))"

text \<open>
  \<^verbatim>\<open>x1, y1, x2, y2 = bbox\<close>: \<^verbatim>\<open>ValueError\<close> when the sequence does not have four
  elements, \<^verbatim>\<open>TypeError\<close> when the value is not iterable.
\<close>

definition unpack4 :: "pyval \<Rightarrow> exn + pyval \<times> pyval \<times> pyval \<times> pyval" where
  "unpack4 v =
     (case v of
        PList xs \<Rightarrow>
          (case xs of [a, b, c, d] \<Rightarrow> Inr (a, b, c, d) | _ \<Rightarrow> Inl ValueError)
      | PStr s \<Rightarrow>
          (case s of [a, b, c, d] \<Rightarrow> Inr (PStr [a], PStr [b], PStr [c], PStr [d])
                   | _ \<Rightarrow> Inl ValueError)
      | _ \<Rightarrow> Inl TypeError)"

text \<open>
  \<^verbatim>\<open>f"{confidence:.2f}"\<close>: a string raises \<^verbatim>\<open>ValueError\<close> (unknown format code), a list or
  \<^verbatim>\<open>None\<close> raises \<^verbatim>\<open>TypeError\<close>.
\<close>

definition format_2f :: "pyformat \<Rightarrow> pyval \<Rightarrow> exn + string" where
  "format_2f py v =
     (case v of
        PInt i \<Rightarrow> Inr (fixed2 py (real_of_int i))
      | PFloat r \<Rightarrow> Inr (fixed2 py r)
      | PStr s \<Rightarrow> Inl ValueError
      | _ \<Rightarrow> Inl TypeError)"

text \<open>Arithmetic of a coordinate with an integer; only numbers take part.\<close>

definition py_add :: "pyval \<Rightarrow> int \<Rightarrow> exn + pyval" where
  "py_add v n =
     (case v of
        PInt i \<Rightarrow> Inr (PInt (i + n))
      | PFloat r \<Rightarrow> Inr (PFloat (r + real_of_int n))
      | _ \<Rightarrow> Inl TypeError)"

definition py_max :: "pyval \<Rightarrow> int \<Rightarrow> exn + pyval" where
  "py_max v n =
     (case v of
        PInt i \<Rightarrow> Inr (if n > i then PInt n else PInt i)
      | PFloat r \<Rightarrow> Inr (if real_of_int n > r then PInt n else PFloat r)
      | _ \<Rightarrow> Inl TypeError)"

text \<open>
  The body of the loop for one dictionary, in the order the source evaluates it. Nothing
  is caught: the first exception leaves \<open>draw_detections\<close>. Only a missing
  \<^verbatim>\<open>'confidence'\<close> key has a default, through \<^verbatim>\<open>det.get('confidence', 0.0)\<close>.
\<close>

definition draw_one :: "'net cv2 \<Rightarrow> pyformat \<Rightarrow> ndarray \<Rightarrow> pydict \<Rightarrow> exn + ndarray" where
  "draw_one cv py annotated det =
     (case getitem det ''bbox'' of
        Inl e \<Rightarrow> Inl e
      | Inr bbox_v \<Rightarrow>
     (case getitem det ''type'' of
        Inl e \<Rightarrow> Inl e
      | Inr defect_type \<Rightarrow>
     (let confidence_v = (case det ''confidence'' of None \<Rightarrow> PFloat 0 | Some v \<Rightarrow> v)
      in
     (case color_of defect_type of
        Inl e \<Rightarrow> Inl e
      | Inr color \<Rightarrow>
     (case unpack4 bbox_v of
        Inl e \<Rightarrow> Inl e
      | Inr (x1, y1, x2, y2) \<Rightarrow>
     (case rectangle cv annotated (x1, y1) (x2, y2) color 2 of
        Inl e \<Rightarrow> Inl e
      | Inr boxed \<Rightarrow>
     (case format_2f py confidence_v of
        Inl e \<Rightarrow> Inl e
      | Inr confidence_text \<Rightarrow>
     (let label = str_of py defect_type @ '': '' @ confidence_text;
          label_size = getTextSize cv label
      in
     (case py_max y1 (snd label_size + 10) of
        Inl e \<Rightarrow> Inl e
      | Inr label_y \<Rightarrow>
     (case py_add label_y (- snd label_size - 10) of
        Inl e \<Rightarrow> Inl e
      | Inr background_top \<Rightarrow>
     (case py_add x1 (fst label_size) of
        Inl e \<Rightarrow> Inl e
      | Inr background_right \<Rightarrow>
     (case rectangle cv boxed (x1, background_top) (background_right, label_y) color (- 1) of
        Inl e \<Rightarrow> Inl e
      | Inr labelled \<Rightarrow>
     (case py_add label_y (- 5) of
        Inl e \<Rightarrow> Inl e
      | Inr text_y \<Rightarrow> putText cv labelled label (x1, text_y))))))))))))))"

fun draw_loop :: "'net cv2 \<Rightarrow> pyformat \<Rightarrow> ndarray \<Rightarrow> pydict list \<Rightarrow> exn + ndarray" where
  "draw_loop cv py annotated [] = Inr annotated"
| "draw_loop cv py annotated (det # rest) =
     (case draw_one cv py annotated det of
        Inl e \<Rightarrow> Inl e
      | Inr annotated' \<Rightarrow> draw_loop cv py annotated' rest)"

definition draw_detections :: "'net cv2 \<Rightarrow> pyformat \<Rightarrow> ndarray \<Rightarrow> pydict list \<Rightarrow> exn + ndarray" where
  "draw_detections cv py img detections = draw_loop cv py img detections"

section \<open>The claims in the words of the specification\<close>

text \<open>
  The invariant the specification states for a detection of an image of the given width and
  height: the confidence between 0 and 1, a box with \<open>x1 < x2\<close> and \<open>y1 < y2\<close>, inside the
  image. The bound is read in the way most favourable to the code, the right and lower
  edge of the image included.
\<close>

definition spec_detection_invariant :: "nat \<Rightarrow> nat \<Rightarrow> detection \<Rightarrow> bool" where
  "spec_detection_invariant width height d =
     (case bbox d of (x1, y1, x2, y2) \<Rightarrow>
        0 \<le> confidence d \<and> confidence d \<le> 1 \<and> x1 < x2 \<and> y1 < y2 \<and>
        0 \<le> x1 \<and> x2 \<le> int width \<and> 0 \<le> y1 \<and> y2 \<le> int height)"

text \<open>
  The crack rule of the specification: the aspect ratio of a bounding rectangle, which
  contours are classified as cracks, and the detection emitted for one.
\<close>

definition spec_aspect_ratio :: "int \<times> int \<times> int \<times> int \<Rightarrow> real" where
  "spec_aspect_ratio r =
     (case r of (x, y, w, h) \<Rightarrow> real_of_int (max w h) / real_of_int (max (min w h) 1))"

definition spec_is_crack :: "contour \<Rightarrow> bool" where
  "spec_is_crack c = (contourArea c > 100 \<and> spec_aspect_ratio (boundingRect c) > 3)"

definition spec_crack_detection :: "contour \<Rightarrow> detection" where
  "spec_crack_detection c =
     \<lparr>type = ''Crack'', confidence = min 0.9 (contourArea c / 1000),
      bbox = corners (boundingRect c)\<rparr>"

text \<open>The two ways a dictionary is malformed according to the specification.\<close>

definition wrong_bbox_arity :: "pydict \<Rightarrow> bool" where
  "wrong_bbox_arity det =
     (case det ''bbox'' of Some (PList xs) \<Rightarrow> length xs \<noteq> 4 | _ \<Rightarrow> False)"

definition non_numeric_confidence :: "pydict \<Rightarrow> bool" where
  "non_numeric_confidence det =
     (case det ''confidence'' of
        None \<Rightarrow> False
      | Some (PInt i) \<Rightarrow> False
      | Some (PFloat r) \<Rightarrow> False
      | Some _ \<Rightarrow> True)"

text \<open>
  What the detector takes from OpenCV and from the network for one image: the contours
  that the two classical paths hand to their loops, and the rows that the model path
  reads.
\<close>

definition found_contours :: "'net cv2 \<Rightarrow> ndarray \<Rightarrow> contour list" where
  "found_contours cv img =
     (case grayscale cv img of
        Inl e \<Rightarrow> []
      | Inr gray \<Rightarrow>
          (case crack_contours cv gray of Inl e \<Rightarrow> [] | Inr contours \<Rightarrow> contours) @
          (case irregularity_contours cv gray of Inl e \<Rightarrow> [] | Inr contours \<Rightarrow> contours))"

definition model_rows :: "'net cv2 \<Rightarrow> 'net DefectDetector \<Rightarrow> ndarray \<Rightarrow> real list list" where
  "model_rows cv self img =
     (case yolo_net self of
        None \<Rightarrow> []
      | Some net \<Rightarrow>
          (case cvtColor_RGB2BGR cv img of
             Inl e \<Rightarrow> []
           | Inr image_bgr \<Rightarrow>
               (case dnn_forward cv net image_bgr of
                  Inl e \<Rightarrow> []
                | Inr outputs \<Rightarrow> concat outputs)))"

text \<open>
  The two facts about these that the code relies on and does not check: every point of a
  contour is a pixel of the image, and no class score of the network exceeds 1.
\<close>

definition inside_image :: "nat \<Rightarrow> nat \<Rightarrow> contour \<Rightarrow> bool" where
  "inside_image width height c =
     list_all (\<lambda>p. 0 \<le> fst p \<and> fst p < int width \<and> 0 \<le> snd p \<and> snd p < int height) c"

definition scores_at_most_one :: "real list \<Rightarrow> bool" where
  "scores_at_most_one detection = list_all (\<lambda>s. s \<le> 1) (drop 5 detection)"

section \<open>Concrete surroundings for running the model\<close>

text \<open>
  A stand-in for OpenCV: the filters return their input, contour extraction finds one
  41 by 6 rectangle, and the network puts out four rows for two classes: two on the same
  box, one of zero extent, and one centred near the upper left corner that reaches beyond
  the image.
\<close>

definition demo_contour :: contour where
  "demo_contour = [(0, 0), (40, 0), (40, 5), (0, 5)]"

definition demo_rows :: "real list list" where
  "demo_rows =
     [[0.5, 0.5, 0.25, 0.25, 1, 0.875, 0.125],
      [0.5, 0.5, 0.25, 0.25, 1, 0.125, 0.75],
      [0.125, 0.125, 0, 0, 1, 0.625, 0.25],
      [0.125, 0.125, 0.5, 0.5, 1, 0.25, 0.5625]]"

definition demo_cv2 :: "unit cv2" where
  "demo_cv2 =
     \<lparr>INTER_AREA = (\<lambda>img w h. replicate (w * h * prod_list (drop 2 (shape img))) 0),
      GaussianBlur = Inr, medianBlur = Inr, bilateralFilter = Inr,
      cvtColor_RGB2GRAY = (\<lambda>img. Inr (img\<lparr>shape := take 2 (shape img)\<rparr>)),
      cvtColor_RGB2BGR = Inr,
      Canny = Inr, dilate = (\<lambda>img n. Inr img), morphologyEx_CLOSE = (\<lambda>img n. Inr img),
      adaptiveThreshold = Inr,
      findContours = (\<lambda>img. Inr [demo_contour]),
      arcLength = (\<lambda>c. 90),
      dnn_forward = (\<lambda>net img. Inr [demo_rows]),
      rectangle = (\<lambda>img p q c t. Inr img),
      getTextSize = (\<lambda>label. (10 * int (length label), 12)),
      putText = (\<lambda>img label p. Inr img)\<rparr>"

definition demo_pyformat :: pyformat where
  "demo_pyformat = \<lparr>str_of = (\<lambda>v. case v of PStr s \<Rightarrow> s | _ \<Rightarrow> ''?''), fixed2 = (\<lambda>r. ''0.00'')\<rparr>"

text \<open>A colour image one pixel wide and 641 pixels high.\<close>

definition thin_image :: ndarray where
  "thin_image = \<lparr>shape = [641, 1, 3], data = replicate 1923 0\<rparr>"

definition demo_image :: ndarray where
  "demo_image = \<lparr>shape = [640, 640, 3], data = []\<rparr>"

text \<open>Two malformed dictionaries: a box of three numbers, and a confidence that is a string.\<close>

definition short_bbox_det :: pydict where
  "short_bbox_det =
     [''type'' \<mapsto> PStr ''Crack'', ''confidence'' \<mapsto> PFloat 0.9,
      ''bbox'' \<mapsto> PList [PInt 10, PInt 10, PInt 50]]"

definition text_confidence_det :: pydict where
  "text_confidence_det =
     [''type'' \<mapsto> PStr ''Crack'', ''confidence'' \<mapsto> PStr ''high'',
      ''bbox'' \<mapsto> PList [PInt 10, PInt 10, PInt 50, PInt 20]]"

text \<open>A file system with the model files, and one without them.\<close>

definition model_files :: "unit files" where
  "model_files =
     \<lparr>path_exists = (\<lambda>p. True), readNet = (\<lambda>w c. Inr ()), setPreferable = (\<lambda>net. Inr ()),
      readlines = (\<lambda>p. Inr [''scratch'' @ [CHR 0x0A], ''dent''])\<rparr>"

definition no_model_files :: "unit files" where
  "no_model_files =
     \<lparr>path_exists = (\<lambda>p. False), readNet = (\<lambda>w c. Inl CvError),
      setPreferable = (\<lambda>net. Inr ()), readlines = (\<lambda>p. Inl ValueError)\<rparr>"

section \<open>Properties of the image processor\<close>

lemma clip_byte_value:
  fixes n :: nat
  assumes "n < 256"
  shows "py_int (np_clip (1 * real n + 0) 0 255) = int n"
proof -
  from assms have "real n \<le> 255" by linarith
  then have "np_clip (1 * real n + 0) 0 255 = real n"
    unfolding np_clip_def by (simp add: min_def max_def)
  then show ?thesis
    unfolding py_int_def by simp
qed

lemma astype_roundtrip: "astype_uint8 (np_clip (1 * astype_float32 p + 0) 0 255) = p"
proof -
  have "unat p < 256"
    using unsigned_less [of p] by simp
  then have "py_int (np_clip (1 * real (unat p) + 0) 0 255) = int (unat p)"
    by (rule clip_byte_value)
  then show ?thesis
    unfolding astype_uint8_def astype_float32_def by simp
qed

text \<open>
  C8. With the default parameters \<open>alpha = 1\<close> and \<open>beta = 0\<close>,
  \<open>adjust_brightness\<close> returns its input: every pixel of a \<^verbatim>\<open>uint8\<close> image lies in
  \<open>[0, 255]\<close>, so the clip changes nothing and the conversion back to \<^verbatim>\<open>uint8\<close> is exact.
\<close>

theorem adjust_brightness_default_identity:
  "adjust_brightness img 1 0 = img"
proof -
  have "map (\<lambda>p. astype_uint8 (np_clip (1 * astype_float32 p + 0) 0 255)) (data img) = data img"
    by (rule map_idI) (rule astype_roundtrip)
  then show ?thesis
    unfolding adjust_brightness_def by simp
qed

text \<open>
  C10. For a method that is none of \<^verbatim>\<open>'gaussian'\<close>, \<^verbatim>\<open>'median'\<close> and \<^verbatim>\<open>'bilateral'\<close>,
  \<open>remove_noise\<close> returns the input image unchanged: no filter is applied and nothing is
  raised.
\<close>

theorem remove_noise_unknown_method:
  "method \<notin> {''gaussian'', ''median'', ''bilateral''} \<Longrightarrow> remove_noise cv img method = Inr img"
  by (simp add: remove_noise_def)

theorem remove_noise_unknown_method_witness:
  "''sharpen'' \<notin> {''gaussian'', ''median'', ''bilateral''} \<and>
   remove_noise demo_cv2 demo_image ''sharpen'' = Inr demo_image"
  using remove_noise_unknown_method [of "''sharpen''" demo_cv2 demo_image] by simp

subsection \<open>The letterbox resize\<close>

text \<open>
  Whenever \<open>resize\<close> returns an image, the image has the target height and width: the
  scaled size never exceeds the target, so the four border widths are not negative and add
  up to what is missing.
\<close>

lemma py_int_le:
  assumes "r \<le> real n"
  shows "py_int r \<le> int n"
proof (cases "0 \<le> r")
  case True
  then have "py_int r = \<lfloor>r\<rfloor>" by (simp add: py_int_def)
  moreover have "\<lfloor>r\<rfloor> \<le> int n" using assms by (simp add: floor_le_iff)
  ultimately show ?thesis by simp
next
  case False
  then have "py_int r = \<lceil>r\<rceil>" by (simp add: py_int_def)
  moreover from False have "r \<le> 0" by simp
  then have "\<lceil>r\<rceil> \<le> 0" by (simp add: ceiling_le_iff)
  ultimately show ?thesis by linarith
qed

lemma scaled_width_le:
  assumes "0 < width"
  shows "real width * min (real tw / real width) (real th / real height) \<le> real tw"
proof -
  have "real width * min (real tw / real width) (real th / real height)
          \<le> real width * (real tw / real width)"
    by (rule mult_left_mono) simp_all
  also have "\<dots> = real tw" using assms by simp
  finally show ?thesis .
qed

lemma scaled_height_le:
  assumes "0 < height"
  shows "real height * min (real tw / real width) (real th / real height) \<le> real th"
proof -
  have "real height * min (real tw / real width) (real th / real height)
          \<le> real height * (real th / real height)"
    by (rule mult_left_mono) simp_all
  also have "\<dots> = real th" using assms by simp
  finally show ?thesis .
qed

lemma copyMakeBorder_shape:
  assumes "copyMakeBorder src t b l r = Inr out" and "shape src = h # w # chans"
  shows "shape out = (nat t + h + nat b) # (nat l + w + nat r) # chans \<and> 0 \<le> t \<and> 0 \<le> b \<and> 0 \<le> l \<and> 0 \<le> r"
  using assms by (auto simp: copyMakeBorder_def Let_def split: if_splits)

lemma resize_shape_on_success:
  assumes "resize cv self img None = Inr out" and "target_size self = (tw, th)"
  shows "take 2 (shape out) = [th, tw]"
proof -
  from assms(1) obtain height width rest where s: "shape img = height # width # rest"
    by (auto simp: resize_def assms(2) split: list.splits)
  from assms(1) s have pos: "0 < width" "0 < height"
    by (auto simp: resize_def assms(2) split: if_splits)
  define scale where "scale = min (real tw / real width) (real th / real height)"
  define nw where "nw = py_int (real width * scale)"
  define nh where "nh = py_int (real height * scale)"
  have nw_le: "nw \<le> int tw"
    unfolding nw_def scale_def by (rule py_int_le) (rule scaled_width_le [OF pos(1)])
  have nh_le: "nh \<le> int th"
    unfolding nh_def scale_def by (rule py_int_le) (rule scaled_height_le [OF pos(2)])
  have eq: "resize cv self img None =
      (case cv2_resize cv img (nw, nh) of
         Inl e \<Rightarrow> Inl e
       | Inr resized \<Rightarrow>
           if nw \<noteq> int tw \<or> nh \<noteq> int th
           then copyMakeBorder resized ((int th - nh) div 2) (int th - nh - (int th - nh) div 2)
                  ((int tw - nw) div 2) (int tw - nw - (int tw - nw) div 2)
           else Inr resized)"
    using pos by (auto simp: resize_def assms(2) s Let_def nw_def nh_def scale_def split: sum.split)
  from assms(1) obtain resized where r: "cv2_resize cv img (nw, nh) = Inr resized"
    and o: "(if nw \<noteq> int tw \<or> nh \<noteq> int th
             then copyMakeBorder resized ((int th - nh) div 2) (int th - nh - (int th - nh) div 2)
                    ((int tw - nw) div 2) (int tw - nw - (int tw - nw) div 2)
             else Inr resized) = Inr out"
    unfolding eq by (cases "cv2_resize cv img (nw, nh)") auto
  from r have rs: "shape resized = nat nh # nat nw # rest" and npos: "0 < nw" "0 < nh"
    by (auto simp: cv2_resize_def s split: if_splits)
  show ?thesis
  proof (cases "nw \<noteq> int tw \<or> nh \<noteq> int th")
    case False
    with o rs show ?thesis by auto
  next
    case True
    with o have "copyMakeBorder resized ((int th - nh) div 2) (int th - nh - (int th - nh) div 2)
                    ((int tw - nw) div 2) (int tw - nw - (int tw - nw) div 2) = Inr out"
      by simp
    from copyMakeBorder_shape [OF this rs] nw_le nh_le npos show ?thesis
      by simp linarith
  qed
qed

text \<open>
  C6. The letterbox resize does not produce an image of the target size for every image of
  positive width and height. For an image 1 pixel wide and 641 pixels high and the default
  target of 640 by 640, the scale is \<open>640 / 641\<close>, the new width is \<^verbatim>\<open>int(1 * scale) = 0\<close>,
  and \<^verbatim>\<open>cv2.resize\<close> refuses the empty size: \<open>resize\<close> raises instead of returning.
\<close>

theorem resize_thin_image_raises:
  "resize demo_cv2 ImageProcessor_init thin_image None = Inl CvError"
  by (simp add: resize_def ImageProcessor_init_def thin_image_def cv2_resize_def py_int_def)

theorem resize_thin_image_raises_witness:
  "shape thin_image = [641, 1, 3] \<and> target_size ImageProcessor_init = (640, 640) \<and>
   py_int (1 * min (640 / 1) (640 / 641)) = 0 \<and>
   resize demo_cv2 ImageProcessor_init thin_image None = Inl CvError"
  using resize_thin_image_raises
  by (simp add: thin_image_def ImageProcessor_init_def py_int_def)

section \<open>Properties of the defect detector\<close>

subsection \<open>The crack path\<close>

lemma crack_loop_append: "crack_loop cs acc = acc @ crack_loop cs []"
proof (induction cs arbitrary: acc)
  case Nil
  show ?case by simp
next
  case (Cons c cs)
  show ?case
    using Cons.IH [of "acc @ [spec_crack_detection c]"] Cons.IH [of "[spec_crack_detection c]"]
          Cons.IH [of acc]
    by (cases "boundingRect c") (simp add: Let_def spec_crack_detection_def corners_def)
qed

lemma crack_loop_filter_map:
  "crack_loop cs [] = map spec_crack_detection (filter spec_is_crack cs)"
proof (induction cs)
  case Nil
  show ?case by simp
next
  case (Cons c cs)
  obtain x y w h where r: "boundingRect c = (x, y, w, h)"
    by (cases "boundingRect c") auto
  have "crack_loop (c # cs) [] =
          (if spec_is_crack c then [spec_crack_detection c] else []) @ crack_loop cs []"
    using crack_loop_append [of cs "[spec_crack_detection c]"]
    by (simp add: r Let_def spec_is_crack_def spec_aspect_ratio_def spec_crack_detection_def
          corners_def)
  then show ?case
    using Cons.IH by simp
qed

text \<open>
  C3. The crack path emits one detection for each contour it found whose area is greater
  than 100 and whose bounding rectangle has an aspect ratio
  \<open>max w h / max (min w h) 1\<close> greater than 3, and none for any other contour, in the order
  of the contours; the detection has type \<^verbatim>\<open>"Crack"\<close> and confidence
  \<open>min 0.9 (area / 1000)\<close>.
\<close>

theorem detect_cracks_emits_exactly_cracks:
  "detect_cracks cv gray =
     map spec_crack_detection
       (filter spec_is_crack (case crack_contours cv gray of Inl e \<Rightarrow> [] | Inr contours \<Rightarrow> contours))"
  by (simp add: detect_cracks_def crack_loop_filter_map split: sum.split)

subsection \<open>The irregularity path\<close>

text \<open>
  C9. Computing the circularity never divides by zero: it returns a value for every area
  and perimeter, and for a perimeter of zero the value is 0, below the threshold 0.5.
\<close>

theorem circularity_total:
  "(\<exists>c. circularity area perimeter = Inr c) \<and>
   (\<exists>c. circularity area 0 = Inr c \<and> c = 0 \<and> c < 0.5)"
  by (simp add: circularity_def py_truediv_def)

subsection \<open>Aggregation\<close>

text \<open>
  C5. \<open>detect\<close> returns the detections of the model path, then those of the crack path,
  then those of the irregularity path, concatenated: nothing is removed, merged or
  reordered. (The model path contributes nothing when \<open>use_yolo\<close> is off; an exception of
  the grayscale conversion is not caught.)
\<close>

theorem detect_is_concatenation:
  "detect cv self img =
     (case grayscale cv img of
        Inl e \<Rightarrow> Inl e
      | Inr gray \<Rightarrow>
          Inr ((if use_yolo self then detect_with_yolo cv self img else []) @
               detect_cracks cv gray @ detect_surface_irregularities cv gray))"
  by (simp add: detect_def detect_with_classical_def split: sum.split)

lemma load_without_model:
  "\<not> (path_exists fs config_path \<and> path_exists fs weights_path) \<Longrightarrow>
   DefectDetector_init fs =
     \<lparr>image_processor = ImageProcessor_init, yolo_model = None, yolo_net = None,
      yolo_classes = [], use_yolo = False\<rparr>"
  by (auto simp: DefectDetector_init_def load_yolo_model_def)

text \<open>
  C4. When the model files are absent (the topology file or the weights file does not
  exist), the detector is constructed without error with the model path switched off, the
  model path yields no detection, and \<open>detect\<close> returns what the classical paths return.
\<close>

theorem detect_without_model_files:
  assumes "\<not> (path_exists fs config_path \<and> path_exists fs weights_path)"
  shows "\<not> use_yolo (DefectDetector_init fs) \<and>
         detect_with_yolo cv (DefectDetector_init fs) img = [] \<and>
         detect cv (DefectDetector_init fs) img = detect_with_classical cv img"
  using load_without_model [OF assms]
  by (simp add: detect_def detect_with_yolo_def split: sum.split)

theorem detect_without_model_files_witness:
  "\<not> (path_exists no_model_files config_path \<and> path_exists no_model_files weights_path) \<and>
   \<not> use_yolo (DefectDetector_init no_model_files) \<and>
   detect_with_yolo demo_cv2 (DefectDetector_init no_model_files) demo_image = [] \<and>
   detect demo_cv2 (DefectDetector_init no_model_files) demo_image =
     detect_with_classical demo_cv2 demo_image \<and>
   detect_with_classical demo_cv2 demo_image =
     Inr [\<lparr>type = ''Crack'', confidence = 0.2, bbox = (0, 0, 41, 6)\<rparr>]"
proof -
  have h: "\<not> (path_exists no_model_files config_path \<and> path_exists no_model_files weights_path)"
    by (simp add: no_model_files_def)
  have c: "detect_with_classical demo_cv2 demo_image =
     Inr [\<lparr>type = ''Crack'', confidence = 0.2, bbox = (0, 0, 41, 6)\<rparr>]"
    by (simp add: detect_with_classical_def grayscale_def demo_cv2_def demo_image_def
          detect_cracks_def crack_contours_def detect_surface_irregularities_def
          irregularity_contours_def demo_contour_def contourArea_def boundingRect_def)
  show ?thesis
    using h c detect_without_model_files [OF h, of demo_cv2 demo_image] by simp
qed

subsection \<open>Non-maximum suppression\<close>

lemma intersection_commute: "intersection a b = intersection b a"
  by (cases a; cases b) (simp add: intersection_def min.commute max.commute)

lemma iou_commute: "iou a b = iou b a"
  by (simp add: iou_def intersection_commute [of a b] add.commute)

lemma set_nms_greedy: "set (nms_greedy thr boxes idx) \<subseteq> set idx"
  by (induction thr boxes idx rule: nms_greedy.induct) auto

lemma nms_greedy_pairwise:
  "sorted_wrt (\<lambda>i j. iou (corners (boxes ! i)) (corners (boxes ! j)) \<le> thr)
     (nms_greedy thr boxes idx)"
proof (induction thr boxes idx rule: nms_greedy.induct)
  case (1 thr boxes)
  show ?case by simp
next
  case (2 thr boxes i rest)
  have "\<forall>j \<in> set (nms_greedy thr boxes
            (filter (\<lambda>j. \<not> iou (corners (boxes ! i)) (corners (boxes ! j)) > thr) rest)).
          iou (corners (boxes ! i)) (corners (boxes ! j)) \<le> thr"
    using set_nms_greedy [of thr boxes
            "filter (\<lambda>j. \<not> iou (corners (boxes ! i)) (corners (boxes ! j)) > thr) rest"]
    by auto
  with 2 show ?case by simp
qed

lemma detect_with_yolo_form:
  "detect_with_yolo cv self img = [] \<or>
   (\<exists>net image_bgr height width rest outputs boxes confidences class_ids.
      yolo_net self = Some net \<and> cvtColor_RGB2BGR cv img = Inr image_bgr \<and>
      shape image_bgr = height # width # rest \<and>
      dnn_forward cv net image_bgr = Inr outputs \<and>
      collect_boxes width height (concat outputs) ([], [], []) = Inr (boxes, confidences, class_ids) \<and>
      detect_with_yolo cv self img =
        map (\<lambda>i. \<lparr>type = (if class_ids ! i < length (yolo_classes self)
                            then yolo_classes self ! (class_ids ! i) else ''Unknown''),
                    confidence = confidences ! i,
                    bbox = corners (boxes ! i)\<rparr>)
            (NMSBoxes boxes confidences 0.5 0.4))"
  by (auto simp: detect_with_yolo_def split: option.split sum.split list.split)

lemma detect_with_yolo_pairwise:
  "sorted_wrt (\<lambda>d e. iou (bbox d) (bbox e) \<le> 0.4) (detect_with_yolo cv self img)"
proof -
  have "sorted_wrt (\<lambda>i j. iou (corners (boxes ! i)) (corners (boxes ! j)) \<le> 0.4)
          (NMSBoxes boxes confidences 0.5 0.4)" for boxes confidences
    unfolding NMSBoxes_def by (rule nms_greedy_pairwise)
  then show ?thesis
    using detect_with_yolo_form [of cv self img]
    by (auto simp: sorted_wrt_map)
qed

text \<open>
  C7. After non-maximum suppression with threshold 0.4, any two different detections that
  the model path returns in one call have an intersection over union of at most 0.4,
  whatever their classes.
\<close>

theorem model_path_iou_after_nms:
  assumes "i < length (detect_with_yolo cv self img)"
    and "j < length (detect_with_yolo cv self img)"
    and "i \<noteq> j"
  shows "iou (bbox (detect_with_yolo cv self img ! i)) (bbox (detect_with_yolo cv self img ! j)) \<le> 0.4"
proof -
  let ?ds = "detect_with_yolo cv self img"
  have less: "iou (bbox (?ds ! a)) (bbox (?ds ! b)) \<le> 0.4" if "a < b" "b < length ?ds" for a b
    using detect_with_yolo_pairwise [of cv self img] that
    by (simp add: sorted_wrt_iff_nth_less)
  show ?thesis
  proof (cases "i < j")
    case True
    then show ?thesis using less assms by simp
  next
    case False
    with assms have "j < i" by simp
    then have "iou (bbox (?ds ! j)) (bbox (?ds ! i)) \<le> 0.4"
      using less assms by simp
    then show ?thesis by (simp add: iou_commute)
  qed
qed

lemma demo_detector: "DefectDetector_init model_files =
  \<lparr>image_processor = ImageProcessor_init, yolo_model = None, yolo_net = Some (),
    yolo_classes = [''scratch'', ''dent''], use_yolo = True\<rparr>"
  by (simp add: DefectDetector_init_def load_yolo_model_def model_files_def strip_def is_space_def)

lemma demo_collect:
  "collect_boxes 640 640 demo_rows ([], [], []) =
     Inr ([(240, 240, 160, 160), (240, 240, 160, 160), (80, 80, 0, 0), (- 80, - 80, 320, 320)],
          [7 / 8, 3 / 4, 5 / 8, 9 / 16], [0, 1, 0, 1])"
  by (simp add: demo_rows_def np_argmax_def py_int_def Let_def)

lemma demo_nms:
  "NMSBoxes [(240, 240, 160, 160), (240, 240, 160, 160), (80, 80, 0, 0), (- 80, - 80, 320, 320)]
     [7 / 8, 3 / 4, 5 / 8, 9 / 16] (1 / 2) (2 / 5) = [0, 2, 3]"
  by (simp add: NMSBoxes_def upt_rec iou_def corners_def intersection_def box_area_def)

lemma demo_model_path:
  "detect_with_yolo demo_cv2 (DefectDetector_init model_files) demo_image =
     [\<lparr>type = ''scratch'', confidence = 0.875, bbox = (240, 240, 400, 400)\<rparr>,
      \<lparr>type = ''scratch'', confidence = 0.625, bbox = (80, 80, 80, 80)\<rparr>,
      \<lparr>type = ''dent'', confidence = 0.5625, bbox = (- 80, - 80, 240, 240)\<rparr>]"
  by (simp add: detect_with_yolo_def demo_detector demo_cv2_def demo_image_def demo_collect
        demo_nms corners_def)

theorem model_path_iou_after_nms_witness:
  "0 < length (detect_with_yolo demo_cv2 (DefectDetector_init model_files) demo_image) \<and>
   1 < length (detect_with_yolo demo_cv2 (DefectDetector_init model_files) demo_image) \<and>
   (0 :: nat) \<noteq> 1 \<and>
   iou (bbox (detect_with_yolo demo_cv2 (DefectDetector_init model_files) demo_image ! 0))
       (bbox (detect_with_yolo demo_cv2 (DefectDetector_init model_files) demo_image ! 1)) \<le> 0.4"
proof -
  have l: "length (detect_with_yolo demo_cv2 (DefectDetector_init model_files) demo_image) = 3"
    by (simp add: demo_model_path)
  show ?thesis
    using l model_path_iou_after_nms [of 0 demo_cv2 "DefectDetector_init model_files" demo_image 1]
    by simp
qed

subsection \<open>Bounds on the detections\<close>

lemma fold_min_le: "fold min xs (a :: int) \<le> a"
proof (induction xs arbitrary: a)
  case Nil
  show ?case by simp
next
  case (Cons x xs)
  have "fold min xs (min x a) \<le> min x a" by (rule Cons.IH)
  then show ?case by simp
qed

lemma fold_max_ge: "(a :: int) \<le> fold max xs a"
proof (induction xs arbitrary: a)
  case Nil
  show ?case by simp
next
  case (Cons x xs)
  have "max x a \<le> fold max xs (max x a)" by (rule Cons.IH)
  then show ?case by simp
qed

lemma fold_min_ge:
  assumes "\<forall>x \<in> set xs. l \<le> x" and "l \<le> a"
  shows "(l :: int) \<le> fold min xs a"
  using assms
proof (induction xs arbitrary: a)
  case Nil
  then show ?case by simp
next
  case (Cons x xs)
  from Cons.prems have "l \<le> min x a" by simp
  with Cons.IH [of "min x a"] Cons.prems show ?case by simp
qed

lemma fold_max_less:
  assumes "\<forall>x \<in> set xs. x < u" and "a < u"
  shows "fold max xs a < (u :: int)"
  using assms
proof (induction xs arbitrary: a)
  case Nil
  then show ?case by simp
next
  case (Cons x xs)
  from Cons.prems have "max x a < u" by simp
  with Cons.IH [of "max x a"] Cons.prems show ?case by simp
qed

lemma boundingRect_positive:
  assumes "c \<noteq> []" and "boundingRect c = (x, y, w, h)"
  shows "0 < w \<and> 0 < h"
proof -
  from assms(1) obtain p ps where c: "c = p # ps" by (cases c) auto
  have "fold min (map fst ps) (fst p) \<le> fold max (map fst ps) (fst p)"
    using fold_min_le [of "map fst ps" "fst p"] fold_max_ge [of "fst p" "map fst ps"] by linarith
  moreover have "fold min (map snd ps) (snd p) \<le> fold max (map snd ps) (snd p)"
    using fold_min_le [of "map snd ps" "snd p"] fold_max_ge [of "snd p" "map snd ps"] by linarith
  ultimately show ?thesis
    using assms(2) by (auto simp: boundingRect_def c Let_def)
qed

lemma boundingRect_inside:
  assumes "inside_image width height c" and "c \<noteq> []" and "boundingRect c = (x, y, w, h)"
  shows "0 \<le> x \<and> x + w \<le> int width \<and> 0 \<le> y \<and> y + h \<le> int height"
proof -
  from assms(2) obtain p ps where c: "c = p # ps" by (cases c) auto
  from assms(1) have p: "0 \<le> fst p" "fst p < int width" "0 \<le> snd p" "snd p < int height"
    and ps: "\<forall>q \<in> set ps. 0 \<le> fst q \<and> fst q < int width \<and> 0 \<le> snd q \<and> snd q < int height"
    by (auto simp: inside_image_def c list_all_iff)
  have "0 \<le> fold min (map fst ps) (fst p)"
    by (rule fold_min_ge) (use p ps in auto)
  moreover have "fold max (map fst ps) (fst p) < int width"
    by (rule fold_max_less) (use p ps in auto)
  moreover have "0 \<le> fold min (map snd ps) (snd p)"
    by (rule fold_min_ge) (use p ps in auto)
  moreover have "fold max (map snd ps) (snd p) < int height"
    by (rule fold_max_less) (use p ps in auto)
  ultimately show ?thesis
    using assms(3) by (auto simp: boundingRect_def c Let_def)
qed

lemma contourArea_nonempty: "0 < contourArea c \<Longrightarrow> c \<noteq> []"
  by (auto simp: contourArea_def)

lemma contour_box_invariant:
  assumes "inside_image width height c" and "0 < contourArea c"
    and "0 \<le> k" and "k \<le> 1"
  shows "spec_detection_invariant width height
           \<lparr>type = t, confidence = k, bbox = corners (boundingRect c)\<rparr>"
proof -
  obtain x y w h where r: "boundingRect c = (x, y, w, h)"
    by (cases "boundingRect c") auto
  from assms(2) have ne: "c \<noteq> []" by (rule contourArea_nonempty)
  from boundingRect_positive [OF ne r] boundingRect_inside [OF assms(1) ne r] assms(3,4)
  show ?thesis
    by (simp add: spec_detection_invariant_def corners_def r)
qed

lemma crack_invariant:
  assumes "inside_image width height c" and "spec_is_crack c"
  shows "spec_detection_invariant width height (spec_crack_detection c)"
proof -
  from assms(2) have a: "100 < contourArea c" by (simp add: spec_is_crack_def)
  then have "0 \<le> min 0.9 (contourArea c / 1000)" "min 0.9 (contourArea c / 1000) \<le> 1"
    by (simp_all add: min_def)
  moreover from a have "0 < contourArea c" by simp
  ultimately show ?thesis
    unfolding spec_crack_detection_def using assms(1) by (intro contour_box_invariant)
qed

lemma irregularity_loop_invariant:
  assumes "\<forall>d \<in> set acc. spec_detection_invariant width height d"
    and "\<forall>c \<in> set cs. inside_image width height c"
  shows "\<forall>d \<in> set (irregularity_loop cv cs acc). spec_detection_invariant width height d"
  using assms
proof (induction cs arbitrary: acc)
  case Nil
  then show ?case by simp
next
  case (Cons c cs)
  obtain x y w h where r: "boundingRect c = (x, y, w, h)"
    by (cases "boundingRect c") auto
  let ?d = "\<lparr>type = ''Surface Irregularity'', confidence = min 0.8 (contourArea c / 5000),
             bbox = (x, y, x + w, y + h)\<rparr>"
  from Cons.prems(2) have rest: "\<forall>c \<in> set cs. inside_image width height c"
    and here: "inside_image width height c"
    by simp_all
  have new: "spec_detection_invariant width height ?d" if "200 < contourArea c"
  proof -
    from that have "0 \<le> min 0.8 (contourArea c / 5000)" "min 0.8 (contourArea c / 5000) \<le> 1"
      by (simp_all add: min_def)
    moreover from that have "0 < contourArea c" by simp
    ultimately have "spec_detection_invariant width height
        \<lparr>type = ''Surface Irregularity'', confidence = min 0.8 (contourArea c / 5000),
         bbox = corners (boundingRect c)\<rparr>"
      using here by (intro contour_box_invariant)
    then show ?thesis by (simp add: corners_def r)
  qed
  show ?case
  proof (cases "200 < contourArea c \<and> contourArea c < 50000")
    case False
    then show ?thesis using Cons.IH [OF Cons.prems(1) rest] by (auto simp: Let_def)
  next
    case True
    then have ext: "\<forall>d \<in> set (acc @ [?d]). spec_detection_invariant width height d"
      using new Cons.prems(1) by auto
    show ?thesis
      using True Cons.IH [OF Cons.prems(1) rest] Cons.IH [OF ext rest] Cons.prems(1)
      by (auto simp: Let_def r split: sum.split)
  qed
qed

lemma argmax_from_bound:
  assumes "best < i"
  shows "argmax_from xs i best v < i + length xs"
  using assms by (induction xs i best v rule: argmax_from.induct) auto

lemma np_argmax_in_range:
  assumes "np_argmax scores = Inr class_id"
  shows "class_id < length scores"
proof (cases scores)
  case Nil
  with assms show ?thesis by (simp add: np_argmax_def)
next
  case (Cons x xs)
  with assms have "class_id = argmax_from xs 1 0 x" by (simp add: np_argmax_def)
  moreover have "argmax_from xs 1 0 x < 1 + length xs"
    by (rule argmax_from_bound) simp
  ultimately show ?thesis using Cons by simp
qed

lemma collect_boxes_confident:
  assumes "collect_boxes width height rows (boxes, confidences, class_ids) =
             Inr (boxes', confidences', class_ids')"
    and "length boxes = length confidences"
    and "\<forall>c \<in> set confidences. 0.5 < c \<and> c \<le> 1"
    and "\<forall>row \<in> set rows. scores_at_most_one row"
  shows "length boxes' = length confidences' \<and> (\<forall>c \<in> set confidences'. 0.5 < c \<and> c \<le> 1)"
  using assms
proof (induction rows arbitrary: boxes confidences class_ids)
  case Nil
  then show ?case by simp
next
  case (Cons row rows)
  from Cons.prems(1) obtain class_id where a: "np_argmax (drop 5 row) = Inr class_id"
    by (cases "np_argmax (drop 5 row)") (auto simp: Let_def)
  from Cons.prems(4) have rest: "\<forall>row \<in> set rows. scores_at_most_one row"
    and here: "\<forall>s \<in> set (drop 5 row). s \<le> 1"
    by (simp_all add: scores_at_most_one_def list_all_iff)
  from np_argmax_in_range [OF a] here have le: "drop 5 row ! class_id \<le> 1"
    using nth_mem by blast
  show ?case
  proof (cases "drop 5 row ! class_id > 0.5")
    case True
    let ?b = "(py_int (real_of_int (py_int (row ! 0 * real width)) -
                 real_of_int (py_int (row ! 2 * real width)) / 2),
               py_int (real_of_int (py_int (row ! 1 * real height)) -
                 real_of_int (py_int (row ! 3 * real height)) / 2),
               py_int (row ! 2 * real width), py_int (row ! 3 * real height))"
    have step: "collect_boxes width height rows
            (boxes @ [?b], confidences @ [drop 5 row ! class_id], class_ids @ [class_id]) =
          Inr (boxes', confidences', class_ids')"
      using Cons.prems(1) a True by (simp add: Let_def)
    have l: "length (boxes @ [?b]) = length (confidences @ [drop 5 row ! class_id])"
      using Cons.prems(2) by simp
    have p: "\<forall>c \<in> set (confidences @ [drop 5 row ! class_id]). 0.5 < c \<and> c \<le> 1"
      using Cons.prems(3) True le by auto
    show ?thesis
      by (rule Cons.IH [OF step l p rest])
  next
    case False
    have "collect_boxes width height rows (boxes, confidences, class_ids) =
          Inr (boxes', confidences', class_ids')"
      using Cons.prems(1) a False by (simp add: Let_def)
    then show ?thesis
      using Cons.prems(2,3) rest by (rule Cons.IH)
  qed
qed

lemma NMSBoxes_in_range: "i \<in> set (NMSBoxes boxes scores st nt) \<Longrightarrow> i < length boxes"
  using set_nms_greedy [of nt boxes
          "sort_key (\<lambda>i. - (scores ! i)) (filter (\<lambda>i. scores ! i > st) [0..<length boxes])"]
  by (auto simp: NMSBoxes_def)

lemma model_path_confident:
  assumes "d \<in> set (detect_with_yolo cv self img)"
    and "list_all scores_at_most_one (model_rows cv self img)"
  shows "0.5 < confidence d \<and> confidence d \<le> 1"
proof -
  from assms(1) detect_with_yolo_form [of cv self img]
  obtain net image_bgr width height outputs boxes confidences class_ids i
    where n: "yolo_net self = Some net" and b: "cvtColor_RGB2BGR cv img = Inr image_bgr"
      and f: "dnn_forward cv net image_bgr = Inr outputs"
      and c: "collect_boxes width height (concat outputs) ([], [], []) =
                Inr (boxes, confidences, class_ids)"
      and i: "i \<in> set (NMSBoxes boxes confidences 0.5 0.4)"
      and d: "confidence d = confidences ! i"
    by auto
  from assms(2) have rows: "\<forall>row \<in> set (concat outputs). scores_at_most_one row"
    by (simp add: model_rows_def n b f list_all_iff)
  have "length boxes = length confidences \<and> (\<forall>c \<in> set confidences. 0.5 < c \<and> c \<le> 1)"
    by (rule collect_boxes_confident [OF c _ _ rows]) simp_all
  moreover have "i < length boxes"
    using i by (rule NMSBoxes_in_range)
  ultimately show ?thesis
    using d by (metis nth_mem)
qed

text \<open>
  C1, as amended. Let the contours that OpenCV finds lie inside the image and the class
  scores of the network be at most 1. Then every detection that \<open>detect\<close> returns from the
  crack path or the irregularity path satisfies the invariant of the specification: a
  confidence between 0 and 1, a box with \<open>x1 < x2\<close> and \<open>y1 < y2\<close>, inside the image. A
  detection from the model path has a confidence above 0.5 and at most 1; its box is
  emitted as computed from the network row, without clamping.
\<close>

theorem detect_bounds_by_path:
  assumes "detect cv self img = Inr ds" and "d \<in> set ds"
    and "shape img = height # width # rest"
    and "list_all (inside_image width height) (found_contours cv img)"
    and "list_all scores_at_most_one (model_rows cv self img)"
  shows "(d \<in> set (detect_with_yolo cv self img) \<and> 0.5 < confidence d \<and> confidence d \<le> 1) \<or>
         spec_detection_invariant width height d"
proof -
  from assms(1) obtain gray where g: "grayscale cv img = Inr gray"
    and ds: "ds = (if use_yolo self then detect_with_yolo cv self img else []) @
                  detect_cracks cv gray @ detect_surface_irregularities cv gray"
    by (auto simp: detect_def detect_with_classical_def split: sum.splits)
  have cr: "spec_detection_invariant width height e" if "e \<in> set (detect_cracks cv gray)" for e
  proof -
    from that obtain cs where cs: "crack_contours cv gray = Inr cs"
      by (cases "crack_contours cv gray") (auto simp: detect_cracks_def)
    with that have "e \<in> set (map spec_crack_detection (filter spec_is_crack cs))"
      by (simp add: detect_cracks_def crack_loop_filter_map)
    then obtain c where c: "c \<in> set cs" "spec_is_crack c" and e: "e = spec_crack_detection c"
      by auto
    from assms(4) cs c(1) have "inside_image width height c"
      by (simp add: found_contours_def g list_all_iff)
    then show ?thesis unfolding e using c(2) by (rule crack_invariant)
  qed
  have ir: "spec_detection_invariant width height e"
    if "e \<in> set (detect_surface_irregularities cv gray)" for e
  proof -
    from that obtain cs where cs: "irregularity_contours cv gray = Inr cs"
      by (cases "irregularity_contours cv gray") (auto simp: detect_surface_irregularities_def)
    with that have e: "e \<in> set (irregularity_loop cv cs [])"
      by (simp add: detect_surface_irregularities_def)
    from assms(4) cs have "\<forall>c \<in> set cs. inside_image width height c"
      by (simp add: found_contours_def g list_all_iff)
    then have "\<forall>d \<in> set (irregularity_loop cv cs []). spec_detection_invariant width height d"
      by (intro irregularity_loop_invariant) simp_all
    with e show ?thesis by blast
  qed
  from assms(2) ds consider "d \<in> set (detect_with_yolo cv self img)"
    | "d \<in> set (detect_cracks cv gray)" | "d \<in> set (detect_surface_irregularities cv gray)"
    by (auto split: if_splits)
  then show ?thesis
  proof cases
    case 1
    then show ?thesis using model_path_confident [OF 1 assms(5)] by blast
  next
    case 2
    then show ?thesis using cr by blast
  next
    case 3
    then show ?thesis using ir by blast
  qed
qed

lemma demo_classical:
  "detect_with_classical demo_cv2 demo_image =
     Inr [\<lparr>type = ''Crack'', confidence = 0.2, bbox = (0, 0, 41, 6)\<rparr>]"
  by (simp add: detect_with_classical_def grayscale_def demo_cv2_def demo_image_def
        detect_cracks_def crack_contours_def detect_surface_irregularities_def
        irregularity_contours_def demo_contour_def contourArea_def boundingRect_def)

lemma demo_detect:
  "detect demo_cv2 (DefectDetector_init model_files) demo_image =
     Inr [\<lparr>type = ''scratch'', confidence = 0.875, bbox = (240, 240, 400, 400)\<rparr>,
          \<lparr>type = ''scratch'', confidence = 0.625, bbox = (80, 80, 80, 80)\<rparr>,
          \<lparr>type = ''dent'', confidence = 0.5625, bbox = (- 80, - 80, 240, 240)\<rparr>,
          \<lparr>type = ''Crack'', confidence = 0.2, bbox = (0, 0, 41, 6)\<rparr>]"
  unfolding detect_def demo_model_path demo_classical
  by (simp add: demo_detector)

lemma demo_contours_inside:
  "list_all (inside_image 640 640) (found_contours demo_cv2 demo_image)"
  by (simp add: found_contours_def grayscale_def crack_contours_def irregularity_contours_def
        demo_cv2_def demo_image_def demo_contour_def inside_image_def)

lemma demo_scores:
  "list_all scores_at_most_one (model_rows demo_cv2 (DefectDetector_init model_files) demo_image)"
  by (simp add: model_rows_def demo_detector demo_cv2_def demo_rows_def scores_at_most_one_def)

theorem detect_bounds_by_path_witness:
  "detect demo_cv2 (DefectDetector_init model_files) demo_image =
     Inr [\<lparr>type = ''scratch'', confidence = 0.875, bbox = (240, 240, 400, 400)\<rparr>,
          \<lparr>type = ''scratch'', confidence = 0.625, bbox = (80, 80, 80, 80)\<rparr>,
          \<lparr>type = ''dent'', confidence = 0.5625, bbox = (- 80, - 80, 240, 240)\<rparr>,
          \<lparr>type = ''Crack'', confidence = 0.2, bbox = (0, 0, 41, 6)\<rparr>] \<and>
   \<lparr>type = ''Crack'', confidence = 0.2, bbox = (0, 0, 41, 6)\<rparr> \<in>
     set [\<lparr>type = ''scratch'', confidence = 0.875, bbox = (240, 240, 400, 400)\<rparr>,
          \<lparr>type = ''scratch'', confidence = 0.625, bbox = (80, 80, 80, 80)\<rparr>,
          \<lparr>type = ''dent'', confidence = 0.5625, bbox = (- 80, - 80, 240, 240)\<rparr>,
          \<lparr>type = ''Crack'', confidence = 0.2, bbox = (0, 0, 41, 6)\<rparr>] \<and>
   shape demo_image = [640, 640, 3] \<and>
   list_all (inside_image 640 640) (found_contours demo_cv2 demo_image) \<and>
   list_all scores_at_most_one
     (model_rows demo_cv2 (DefectDetector_init model_files) demo_image) \<and>
   ((\<lparr>type = ''Crack'', confidence = 0.2, bbox = (0, 0, 41, 6)\<rparr> \<in>
       set (detect_with_yolo demo_cv2 (DefectDetector_init model_files) demo_image) \<and>
     0.5 < confidence \<lparr>type = ''Crack'', confidence = 0.2, bbox = (0, 0, 41, 6)\<rparr> \<and>
     confidence \<lparr>type = ''Crack'', confidence = 0.2, bbox = (0, 0, 41, 6)\<rparr> \<le> 1) \<or>
    spec_detection_invariant 640 640 \<lparr>type = ''Crack'', confidence = 0.2, bbox = (0, 0, 41, 6)\<rparr>)"
proof -
  let ?crack = "\<lparr>type = ''Crack'', confidence = 0.2, bbox = (0, 0, 41, 6)\<rparr>"
  have m: "?crack \<in>
     set [\<lparr>type = ''scratch'', confidence = 0.875, bbox = (240, 240, 400, 400)\<rparr>,
          \<lparr>type = ''scratch'', confidence = 0.625, bbox = (80, 80, 80, 80)\<rparr>,
          \<lparr>type = ''dent'', confidence = 0.5625, bbox = (- 80, - 80, 240, 240)\<rparr>,
          ?crack]"
    by simp
  have s: "shape demo_image = [640, 640, 3]"
    by (simp add: demo_image_def)
  show ?thesis
    using demo_detect m s demo_contours_inside demo_scores
      detect_bounds_by_path [OF demo_detect m s demo_contours_inside demo_scores]
    by blast
qed

text \<open>
  C1 as the specification states it fails on the model path, which emits its boxes as
  computed from the network rows. On the demonstration input one box has zero extent,
  \<open>x1 = x2\<close> and \<open>y1 = y2\<close>, and one starts at \<open>(-80, -80)\<close>, outside the image.
\<close>

theorem detect_invariant_counterexample:
  "detect demo_cv2 (DefectDetector_init model_files) demo_image =
     Inr [\<lparr>type = ''scratch'', confidence = 0.875, bbox = (240, 240, 400, 400)\<rparr>,
          \<lparr>type = ''scratch'', confidence = 0.625, bbox = (80, 80, 80, 80)\<rparr>,
          \<lparr>type = ''dent'', confidence = 0.5625, bbox = (- 80, - 80, 240, 240)\<rparr>,
          \<lparr>type = ''Crack'', confidence = 0.2, bbox = (0, 0, 41, 6)\<rparr>] \<and>
   \<not> spec_detection_invariant 640 640
       \<lparr>type = ''scratch'', confidence = 0.625, bbox = (80, 80, 80, 80)\<rparr> \<and>
   \<not> spec_detection_invariant 640 640
       \<lparr>type = ''dent'', confidence = 0.5625, bbox = (- 80, - 80, 240, 240)\<rparr>"
  using demo_detect by (simp add: spec_detection_invariant_def)

subsection \<open>Drawing\<close>

lemma unpack4_wrong_arity: "length xs \<noteq> 4 \<Longrightarrow> unpack4 (PList xs) = Inl ValueError"
  by (auto simp: unpack4_def split: list.split)

lemma draw_one_wrong_arity:
  assumes "wrong_bbox_arity det"
  shows "\<exists>e. draw_one cv py annotated det = Inl e"
proof -
  from assms obtain xs where b: "det ''bbox'' = Some (PList xs)" and l: "length xs \<noteq> 4"
    by (auto simp: wrong_bbox_arity_def split: option.splits pyval.splits)
  show ?thesis
    by (simp add: draw_one_def getitem_def b unpack4_wrong_arity [OF l] Let_def
          split: option.split sum.split)
qed

lemma format_2f_non_numeric:
  assumes "non_numeric_confidence det"
  shows "\<exists>e. format_2f py (case det ''confidence'' of None \<Rightarrow> PFloat 0 | Some v \<Rightarrow> v) = Inl e"
  using assms
  by (auto simp: non_numeric_confidence_def format_2f_def split: option.splits pyval.splits)

lemma draw_one_non_numeric:
  assumes "non_numeric_confidence det"
  shows "\<exists>e. draw_one cv py annotated det = Inl e"
proof -
  from format_2f_non_numeric [OF assms] obtain e
    where f: "format_2f py (case det ''confidence'' of None \<Rightarrow> PFloat 0 | Some v \<Rightarrow> v) = Inl e"
    by blast
  show ?thesis
    by (simp add: draw_one_def f Let_def split: sum.split prod.split)
qed

lemma draw_loop_malformed:
  assumes "det \<in> set detections" and "wrong_bbox_arity det \<or> non_numeric_confidence det"
  shows "\<exists>e. draw_loop cv py annotated detections = Inl e"
  using assms
proof (induction detections arbitrary: annotated)
  case Nil
  then show ?case by simp
next
  case (Cons d ds)
  show ?case
  proof (cases "draw_one cv py annotated d")
    case (Inl e)
    then show ?thesis by simp
  next
    case (Inr a)
    with Cons.prems draw_one_wrong_arity [of d cv py annotated]
      draw_one_non_numeric [of d cv py annotated]
    have "det \<in> set ds" by auto
    with Cons.IH [of a] Cons.prems Inr show ?thesis by simp
  qed
qed

text \<open>
  C2, as amended. A detection dictionary whose box does not have four elements, or whose
  confidence is not a number, makes \<open>draw_detections\<close> raise: no annotated image is
  returned, wherever in the list the dictionary stands.
\<close>

theorem draw_detections_aborts_on_malformed:
  assumes "det \<in> set detections" and "wrong_bbox_arity det \<or> non_numeric_confidence det"
  shows "\<exists>e. draw_detections cv py img detections = Inl e"
  unfolding draw_detections_def using assms by (rule draw_loop_malformed)

theorem draw_detections_aborts_on_malformed_witness:
  "short_bbox_det \<in> set [to_dict \<lparr>type = ''Crack'', confidence = 0.2, bbox = (0, 0, 41, 6)\<rparr>,
                          short_bbox_det] \<and>
   (wrong_bbox_arity short_bbox_det \<or> non_numeric_confidence short_bbox_det) \<and>
   (\<exists>e. draw_detections demo_cv2 demo_pyformat demo_image
          [to_dict \<lparr>type = ''Crack'', confidence = 0.2, bbox = (0, 0, 41, 6)\<rparr>, short_bbox_det]
        = Inl e)"
proof -
  have w: "wrong_bbox_arity short_bbox_det \<or> non_numeric_confidence short_bbox_det"
    by (simp add: wrong_bbox_arity_def short_bbox_det_def)
  have m: "short_bbox_det \<in> set [to_dict \<lparr>type = ''Crack'', confidence = 0.2, bbox = (0, 0, 41, 6)\<rparr>,
                          short_bbox_det]"
    by simp
  show ?thesis
    using w m draw_detections_aborts_on_malformed [OF m w, of demo_cv2 demo_pyformat demo_image]
    by blast
qed

text \<open>
  C2 as the specification states it fails: a box of three numbers and a confidence that is
  a string each end \<open>draw_detections\<close> with \<^verbatim>\<open>ValueError\<close>; a well-formed dictionary is
  drawn.
\<close>

theorem draw_detections_malformed_counterexample:
  "draw_detections demo_cv2 demo_pyformat demo_image [short_bbox_det] = Inl ValueError \<and>
   draw_detections demo_cv2 demo_pyformat demo_image [text_confidence_det] = Inl ValueError"
  by (simp add: draw_detections_def draw_one_def short_bbox_det_def text_confidence_det_def
        getitem_def color_of_def color_map_def unpack4_def format_2f_def demo_cv2_def)

lemma demo_draw_good:
  "draw_one demo_cv2 demo_pyformat demo_image
     (to_dict \<lparr>type = ''Crack'', confidence = 0.2, bbox = (0, 0, 41, 6)\<rparr>) = Inr demo_image"
  by (simp add: draw_one_def to_dict_def getitem_def color_of_def color_map_def unpack4_def
        format_2f_def py_max_def py_add_def demo_cv2_def demo_pyformat_def Let_def)

end
